theory Spec2Isabelle
  imports Complex_Main
begin

section \<open>The metrics client: counters and histograms\<close>

text \<open>
  \<^verbatim>\<open>app.py\<close> keeps two module-level metric objects of the Prometheus client
  library and three Flask handlers that use them. The handlers are translated from
  \<^verbatim>\<open>app.py\<close>. The client library itself is not part of the repository, so the
  operations the handlers call on it (\<^verbatim>\<open>Counter.labels(...).inc()\<close>,
  \<^verbatim>\<open>Histogram.observe\<close>, \<^verbatim>\<open>generate_latest\<close>,
  \<^verbatim>\<open>CONTENT_TYPE_LATEST\<close>) are modelled from the specification's data model.

  Measured durations are Python floats; they are idealised as \<^typ>\<open>real\<close>. Counts are
  natural numbers.
\<close>

subsection \<open>Labelled counter\<close>

text \<open>
  A labelled counter is a dictionary from tuples of label values (in the order of the
  declared label names) to the value of the child series. Python dictionaries keep
  insertion order, hence an association list.
\<close>

type_synonym label_values = "string list"

record counter =
  counter_name :: string
  labelnames :: "string list"
  children :: "(label_values \<times> nat) list"

definition Counter :: "string \<Rightarrow> string list \<Rightarrow> counter" where
  \<comment> \<open>Modelled from the spec: the client library's \<^verbatim>\<open>Counter\<close> constructor is not in
      the repository. "Keys are created lazily on first observation": a new counter has
      no child series.\<close>
  "Counter nm lns = \<lparr>counter_name = nm, labelnames = lns, children = []\<rparr>"

definition labels :: "label_values \<Rightarrow> counter \<Rightarrow> counter" where
  \<comment> \<open>Modelled from the spec: the client library's \<^verbatim>\<open>Counter.labels\<close> is not in the
      repository. "Keys are created lazily on first observation": the child series of
      the label values is created with value 0 when it does not exist yet.\<close>
  "labels lv c =
     (case map_of (children c) lv of
        None \<Rightarrow> c\<lparr>children := children c @ [(lv, 0)]\<rparr>
      | Some _ \<Rightarrow> c)"

definition inc :: "label_values \<Rightarrow> counter \<Rightarrow> counter" where
  \<comment> \<open>Modelled from the spec: the client library's \<^verbatim>\<open>inc\<close> on a child series is not
      in the repository. "Each observed request increments exactly one key by 1."\<close>
  "inc lv c =
     c\<lparr>children := map (\<lambda>(k, v). if k = lv then (k, v + 1) else (k, v)) (children c)\<rparr>"

definition counter_value :: "label_values \<Rightarrow> counter \<Rightarrow> nat" where
  \<comment> \<open>The value of one key; a key that was never observed counts as 0.\<close>
  "counter_value lv c = (case map_of (children c) lv of None \<Rightarrow> 0 | Some v \<Rightarrow> v)"

definition counter_total :: "counter \<Rightarrow> nat" where
  \<comment> \<open>The counter summed across all label combinations.\<close>
  "counter_total c = sum_list (map snd (children c))"

subsection \<open>Histogram\<close>

datatype bound = Finite real | PlusInf

fun le_bound :: "real \<Rightarrow> bound \<Rightarrow> bool" where
  "le_bound x (Finite b) = (x \<le> b)"
| "le_bound x PlusInf = True"

record histogram =
  histogram_name :: string
  upper_bounds :: "bound list"
  bucket_counts :: "nat list"
  sample_sum :: real

definition Histogram :: "string \<Rightarrow> real list \<Rightarrow> histogram" where
  \<comment> \<open>Modelled from the spec: the client library's \<^verbatim>\<open>Histogram\<close> constructor is not
      in the repository. "A distribution aggregate recording cumulative counts across a
      fixed set of upper-bound buckets plus a running sum"; the total sample count is
      the bucket of everything, with bound plus infinity, after the configured ones.\<close>
  "Histogram nm bs =
     \<lparr>histogram_name = nm,
      upper_bounds = map Finite bs @ [PlusInf],
      bucket_counts = replicate (length bs + 1) 0,
      sample_sum = 0\<rparr>"

fun count_sample :: "real \<Rightarrow> bound list \<Rightarrow> nat list \<Rightarrow> nat list" where
  \<comment> \<open>Modelled from the spec: part of the client library's \<^verbatim>\<open>Histogram.observe\<close>.
      The sample is counted once, in the first bucket whose bound it does not exceed.\<close>
  "count_sample x (b # bs) (n # ns) =
     (if le_bound x b then (n + 1) # ns else n # count_sample x bs ns)"
| "count_sample x _ ns = ns"

definition observe :: "real \<Rightarrow> histogram \<Rightarrow> histogram" where
  \<comment> \<open>Modelled from the spec: the client library's \<^verbatim>\<open>Histogram.observe\<close> is not in
      the repository. "Each observed request adds one sample to the distribution": the
      sample is added to the running sum and counted in one bucket; the cumulative
      counts are formed when the histogram is read.\<close>
  "observe amount h =
     h\<lparr>sample_sum := sample_sum h + amount,
       bucket_counts := count_sample amount (upper_bounds h) (bucket_counts h)\<rparr>"

fun accumulate :: "nat \<Rightarrow> nat list \<Rightarrow> nat list" where
  \<comment> \<open>Modelled from the spec: the client library's reading of a histogram is not in the
      repository. The running totals of the bucket counts, in the order of the bounds.\<close>
  "accumulate acc [] = []"
| "accumulate acc (n # ns) = (acc + n) # accumulate (acc + n) ns"

definition cumulative_counts :: "histogram \<Rightarrow> nat list" where
  \<comment> \<open>One cumulative count per upper bound: the samples not exceeding that bound.\<close>
  "cumulative_counts h = accumulate 0 (bucket_counts h)"

definition sample_count :: "histogram \<Rightarrow> nat" where
  \<comment> \<open>The histogram's total sample count.\<close>
  "sample_count h = sum_list (bucket_counts h)"

subsection \<open>Exposition\<close>

text \<open>
  "One line per metric series with name, optional labels, and a numeric value." A line
  is kept structured; the \<^verbatim>\<open>le\<close> label of a bucket line carries the bucket's bound.
  Comment lines and the creation-time series of the client library are left out.
\<close>

datatype label_value = Str string | UpperBound bound

record sample =
  sample_name :: string
  sample_labels :: "(string \<times> label_value) list"
  sample_value :: real

definition counter_samples :: "counter \<Rightarrow> sample list" where
  \<comment> \<open>Modelled from the spec: the client library's collection of a counter is not in
      the repository. One line per label combination, with the declared label names.\<close>
  "counter_samples c =
     map (\<lambda>(lv, v). \<lparr>sample_name = counter_name c,
                      sample_labels = zip (labelnames c) (map Str lv),
                      sample_value = real v\<rparr>) (children c)"

definition histogram_samples :: "histogram \<Rightarrow> sample list" where
  \<comment> \<open>Modelled from the spec: the client library's collection of a histogram is not in
      the repository. One line per bucket with its cumulative count, then the sample
      count and the running sum.\<close>
  "histogram_samples h =
     map (\<lambda>(b, n). \<lparr>sample_name = histogram_name h @ ''_bucket'',
                     sample_labels = [(''le'', UpperBound b)],
                     sample_value = real n\<rparr>) (zip (upper_bounds h) (cumulative_counts h))
     @ [\<lparr>sample_name = histogram_name h @ ''_count'', sample_labels = [],
          sample_value = real (sample_count h)\<rparr>,
        \<lparr>sample_name = histogram_name h @ ''_sum'', sample_labels = [],
          sample_value = sample_sum h\<rparr>]"

section \<open>The application\<close>

subsection \<open>Module state\<close>

text \<open>
  \<^verbatim>\<open>REQUEST_COUNT\<close> and \<^verbatim>\<open>REQUEST_LATENCY\<close> are the module's two global metric
  objects, registered in the client library's default registry.
\<close>

record registry =
  REQUEST_COUNT :: counter
  REQUEST_LATENCY :: histogram

definition buckets :: "real list" where
  "buckets = [0.005, 0.01, 0.025, 0.05, 0.1, 0.25, 0.5, 1, 2, 5]"

definition process_start :: registry where
  \<comment> \<open>The state after the module has been loaded.\<close>
  "process_start =
     \<lparr>REQUEST_COUNT =
        Counter ''sample_app_request_total'' [''endpoint'', ''method'', ''http_status''],
      REQUEST_LATENCY = Histogram ''sample_app_request_latency_seconds'' buckets\<rparr>"

subsection \<open>Responses\<close>

datatype json = JBool bool | JNumber real

datatype body = JsonObject "(string \<times> json) list" | Text string | Exposition "sample list"

record response =
  body :: body
  status :: nat
  headers :: "(string \<times> string) list"

definition jsonify :: "(string \<times> json) list \<Rightarrow> response" where
  "jsonify obj = \<lparr>body = JsonObject obj, status = 200, headers = []\<rparr>"

definition CONTENT_TYPE_LATEST :: string where
  \<comment> \<open>Modelled from the spec: the constant of the client library is not in the
      repository. "content-type \<^verbatim>\<open>text/plain; version=0.0.4; charset=utf-8\<close>".\<close>
  "CONTENT_TYPE_LATEST = ''text/plain; version=0.0.4; charset=utf-8''"

definition generate_latest :: "sample list \<Rightarrow> registry \<Rightarrow> sample list" where
  \<comment> \<open>Modelled from the spec: the client library's \<^verbatim>\<open>generate_latest\<close> is not in the
      repository. It "serializes the current state of the process-wide Metrics Registry
      (both custom metrics and built-in process/runtime metrics)"; the lines of the
      built-in collectors at the time of the call are the first argument.\<close>
  "generate_latest builtin reg =
     builtin @ counter_samples (REQUEST_COUNT reg) @ histogram_samples (REQUEST_LATENCY reg)"

subsection \<open>Handlers\<close>

text \<open>
  \<^verbatim>\<open>index\<close> reads the wall clock before and after pausing for a random duration. The
  two readings come from the environment of the call; the pause changes nothing of the
  program's state.
\<close>

record clock =
  time_before :: real
  time_after :: real

definition index_labels :: label_values where
  \<comment> \<open>\<^verbatim>\<open>endpoint="/", method="GET", http_status=200\<close>; the client library keeps every
      label value as its string.\<close>
  "index_labels = [''/'', ''GET'', ''200'']"

definition index :: "clock \<Rightarrow> registry \<Rightarrow> response \<times> registry" where
  "index env reg =
     (let start = time_before env;
          latency = time_after env - start;
          reg = reg\<lparr>REQUEST_LATENCY := observe latency (REQUEST_LATENCY reg)\<rparr>;
          reg = reg\<lparr>REQUEST_COUNT := inc index_labels (labels index_labels (REQUEST_COUNT reg))\<rparr>
      in (jsonify [(''ok'', JBool True), (''latency_seconds'', JNumber latency)], reg))"

definition healthz :: "registry \<Rightarrow> response \<times> registry" where
  "healthz reg = (\<lparr>body = Text ''ok'', status = 200, headers = []\<rparr>, reg)"

definition metrics :: "sample list \<Rightarrow> registry \<Rightarrow> response \<times> registry" where
  "metrics builtin reg =
     (\<lparr>body = Exposition (generate_latest builtin reg), status = 200,
       headers = [(''Content-Type'', CONTENT_TYPE_LATEST)]\<rparr>, reg)"

subsection \<open>Serving requests\<close>

text \<open>
  The three routes of the application. A request carries what its handler reads from
  the environment.
\<close>

datatype request = GET_index clock | GET_healthz | GET_metrics "sample list"

fun route :: "request \<Rightarrow> registry \<Rightarrow> response \<times> registry" where
  "route (GET_index env) reg = index env reg"
| "route GET_healthz reg = healthz reg"
| "route (GET_metrics builtin) reg = metrics builtin reg"

fun serve :: "request list \<Rightarrow> registry \<Rightarrow> registry" where
  \<comment> \<open>The state after serving the requests one after the other.\<close>
  "serve [] reg = reg"
| "serve (r # rs) reg = serve rs (snd (route r reg))"

fun is_index :: "request \<Rightarrow> bool" where
  "is_index (GET_index _) = True"
| "is_index _ = False"

definition index_calls :: "request list \<Rightarrow> nat" where
  \<comment> \<open>How many of the requests went to the work-simulation endpoint.\<close>
  "index_calls rs = length (filter is_index rs)"

subsection \<open>Invariants of the reachable states\<close>

fun bound_le :: "bound \<Rightarrow> bound \<Rightarrow> bool" where
  "bound_le (Finite a) (Finite b) = (a \<le> b)"
| "bound_le _ PlusInf = True"
| "bound_le PlusInf (Finite _) = False"

definition counter_after :: "nat \<Rightarrow> counter" where
  \<comment> \<open>\<^verbatim>\<open>REQUEST_COUNT\<close> once \<open>n\<close> requests have reached \<^verbatim>\<open>index\<close>.\<close>
  "counter_after n =
     \<lparr>counter_name = ''sample_app_request_total'',
      labelnames = [''endpoint'', ''method'', ''http_status''],
      children = (if n = 0 then [] else [(index_labels, n)])\<rparr>"

definition histogram_ok :: "histogram \<Rightarrow> bool" where
  \<comment> \<open>\<^verbatim>\<open>REQUEST_LATENCY\<close> keeps its name and bounds, and one count per bound.\<close>
  "histogram_ok h \<longleftrightarrow>
     histogram_name h = ''sample_app_request_latency_seconds'' \<and>
     upper_bounds h = map Finite buckets @ [PlusInf] \<and>
     length (bucket_counts h) = length buckets + 1"

section \<open>Lemmas\<close>

subsection \<open>The request counter and its reachable states\<close>

lemma map_of_inc:
  "map_of (map (\<lambda>(k, v). if k = lv then (k, v + 1) else (k, v)) kvs) k =
     map_option (\<lambda>v. if k = lv then v + (1::nat) else v) (map_of kvs k)"
  by (induction kvs) auto

lemma counter_value_labels: "counter_value k (labels lv c) = counter_value k c"
  by (auto simp: counter_value_def labels_def map_of_append map_add_def split: option.splits)

lemma labels_present: "map_of (children (labels lv c)) lv \<noteq> None"
  by (auto simp: labels_def map_of_append map_add_def split: option.splits)

lemma counter_value_inc:
  "counter_value k (inc lv c) =
     counter_value k c + (if k = lv \<and> map_of (children c) lv \<noteq> None then 1 else 0)"
  by (auto simp: counter_value_def inc_def map_of_inc split: option.splits)

lemma counter_value_inc_labels:
  "counter_value k (inc lv (labels lv c)) = counter_value k c + (if k = lv then 1 else 0)"
  using labels_present [of lv c] by (simp add: counter_value_inc counter_value_labels)

lemma keys_inc: "map fst (children (inc lv c)) = map fst (children c)"
  by (simp add: inc_def case_prod_beta comp_def) 

lemma keys_labels: "set (map fst (children (labels lv c))) = insert lv (set (map fst (children c)))"
proof (cases "map_of (children c) lv")
  case None
  then show ?thesis by (simp add: labels_def)
next
  case (Some v)
  then have "lv \<in> fst ` set (children c)"
    by (metis domI dom_map_of_conv_image_fst)
  then show ?thesis using Some by (auto simp: labels_def)
qed

lemma counter_after_step: "inc index_labels (labels index_labels (counter_after n)) = counter_after (Suc n)"
  by (simp add: counter_after_def inc_def labels_def)

lemma Counter_fresh: "REQUEST_COUNT process_start = counter_after 0"
  by (simp add: process_start_def Counter_def counter_after_def)

lemma REQUEST_COUNT_index:
  "REQUEST_COUNT (snd (index env reg)) = inc index_labels (labels index_labels (REQUEST_COUNT reg))"
  by (simp add: index_def Let_def)

lemma REQUEST_LATENCY_index:
  "REQUEST_LATENCY (snd (index env reg)) = observe (time_after env - time_before env) (REQUEST_LATENCY reg)"
  by (simp add: index_def Let_def)

lemma index_calls_Cons: "index_calls (r # rs) = (if is_index r then Suc (index_calls rs) else index_calls rs)"
  by (simp add: index_calls_def)

lemma REQUEST_COUNT_serve:
  "REQUEST_COUNT reg = counter_after n \<Longrightarrow>
   REQUEST_COUNT (serve rs reg) = counter_after (n + index_calls rs)"
proof (induction rs arbitrary: reg n)
  case Nil
  then show ?case by (simp add: index_calls_def)
next
  case (Cons r rs)
  show ?case
  proof (cases r)
    case (GET_index env)
    have "REQUEST_COUNT (snd (route r reg)) = counter_after (Suc n)"
      using Cons.prems GET_index by (simp add: REQUEST_COUNT_index counter_after_step)
    from Cons.IH [OF this] show ?thesis using GET_index by (simp add: index_calls_Cons)
  next
    case GET_healthz
    have "REQUEST_COUNT (snd (route r reg)) = counter_after n"
      using Cons.prems GET_healthz by (simp add: healthz_def)
    from Cons.IH [OF this] show ?thesis using GET_healthz by (simp add: index_calls_Cons)
  next
    case (GET_metrics b)
    have "REQUEST_COUNT (snd (route r reg)) = counter_after n"
      using Cons.prems GET_metrics by (simp add: metrics_def)
    from Cons.IH [OF this] show ?thesis using GET_metrics by (simp add: index_calls_Cons)
  qed
qed

lemma REQUEST_COUNT_reachable:
  "REQUEST_COUNT (serve rs process_start) = counter_after (index_calls rs)"
  using REQUEST_COUNT_serve [OF Counter_fresh, of rs] by simp

subsection \<open>The latency histogram and its reachable states\<close>

lemma length_count_sample: "length (count_sample x bs ns) = length ns"
  by (induction x bs ns rule: count_sample.induct) auto

lemma sum_list_count_sample:
  "length bs = length ns \<Longrightarrow> PlusInf \<in> set bs \<Longrightarrow>
   sum_list (count_sample x bs ns) = Suc (sum_list ns)"
  by (induction x bs ns rule: count_sample.induct) auto

lemma accumulate_Suc: "accumulate (Suc acc) ns = map Suc (accumulate acc ns)"
  by (induction ns arbitrary: acc) auto

lemma length_accumulate: "length (accumulate acc ns) = length ns"
  by (induction ns arbitrary: acc) auto

lemma le_bound_trans: "le_bound x b \<Longrightarrow> bound_le b b' \<Longrightarrow> le_bound x b'"
  by (cases b; cases b') auto

lemma map2_all_le:
  "length bs = length cs \<Longrightarrow> \<forall>b\<in>set bs. le_bound x b \<Longrightarrow>
   map2 (\<lambda>b c. if le_bound x b then c + 1 else c) bs cs = map Suc cs"
  by (induction bs cs rule: list_induct2) auto

lemma accumulate_count_sample:
  "length bs = length ns \<Longrightarrow> sorted_wrt bound_le bs \<Longrightarrow>
   accumulate acc (count_sample x bs ns) =
     map2 (\<lambda>b c. if le_bound x b then c + 1 else c) bs (accumulate acc ns)"
proof (induction x bs ns arbitrary: acc rule: count_sample.induct)
  case (1 x b bs n ns)
  show ?case
  proof (cases "le_bound x b")
    case True
    have "\<forall>b'\<in>set bs. le_bound x b'"
      using "1.prems"(2) True by (auto intro: le_bound_trans)
    moreover have "length bs = length (accumulate (acc + n) ns)"
      using "1.prems"(1) by (simp add: length_accumulate)
    ultimately show ?thesis
      using True by (simp add: accumulate_Suc map2_all_le)
  next
    case False
    then show ?thesis using 1 by simp
  qed
qed auto

lemma sorted_upper_bounds: "sorted_wrt bound_le (map Finite buckets @ [PlusInf])"
  by (simp add: buckets_def)

lemma histogram_ok_fresh: "histogram_ok (REQUEST_LATENCY process_start)"
  by (simp add: histogram_ok_def process_start_def Histogram_def)

lemma histogram_ok_observe: "histogram_ok h \<Longrightarrow> histogram_ok (observe x h)"
  by (simp add: histogram_ok_def observe_def length_count_sample)

lemma histogram_ok_serve:
  "histogram_ok (REQUEST_LATENCY reg) \<Longrightarrow> histogram_ok (REQUEST_LATENCY (serve rs reg))"
proof (induction rs arbitrary: reg)
  case Nil
  then show ?case by simp
next
  case (Cons r rs)
  have "histogram_ok (REQUEST_LATENCY (snd (route r reg)))"
    using Cons.prems
    by (cases r) (simp_all add: REQUEST_LATENCY_index histogram_ok_observe healthz_def metrics_def)
  then show ?case using Cons.IH by simp
qed

lemma histogram_ok_reachable: "histogram_ok (REQUEST_LATENCY (serve rs process_start))"
  by (rule histogram_ok_serve [OF histogram_ok_fresh])

lemma sample_count_observe:
  "histogram_ok h \<Longrightarrow> sample_count (observe x h) = Suc (sample_count h)"
  by (simp add: histogram_ok_def observe_def sample_count_def sum_list_count_sample)

lemma cumulative_counts_observe:
  "histogram_ok h \<Longrightarrow>
   cumulative_counts (observe x h) =
     map2 (\<lambda>b n. if le_bound x b then n + 1 else n) (upper_bounds h) (cumulative_counts h)"
  unfolding cumulative_counts_def observe_def histogram_ok_def
  using sorted_upper_bounds by (simp add: accumulate_count_sample)

lemma sample_count_serve:
  "histogram_ok (REQUEST_LATENCY reg) \<Longrightarrow>
   sample_count (REQUEST_LATENCY (serve rs reg)) =
     sample_count (REQUEST_LATENCY reg) + index_calls rs"
proof (induction rs arbitrary: reg)
  case Nil
  then show ?case by (simp add: index_calls_def)
next
  case (Cons r rs)
  show ?case
  proof (cases r)
    case (GET_index env)
    let ?reg = "snd (route r reg)"
    have ok: "histogram_ok (REQUEST_LATENCY ?reg)"
      using Cons.prems GET_index by (simp add: REQUEST_LATENCY_index histogram_ok_observe)
    have "sample_count (REQUEST_LATENCY ?reg) = Suc (sample_count (REQUEST_LATENCY reg))"
      using Cons.prems GET_index by (simp add: REQUEST_LATENCY_index sample_count_observe)
    with Cons.IH [OF ok] show ?thesis using GET_index by (simp add: index_calls_Cons)
  next
    case GET_healthz
    then show ?thesis using Cons by (simp add: healthz_def index_calls_Cons)
  next
    case (GET_metrics b)
    then show ?thesis using Cons by (simp add: metrics_def index_calls_Cons)
  qed
qed

lemma sample_count_reachable:
  "sample_count (REQUEST_LATENCY (serve rs process_start)) = index_calls rs"
  using sample_count_serve [OF histogram_ok_fresh, of rs]
  by (simp add: process_start_def Histogram_def sample_count_def)


section \<open>The claims\<close>

text \<open>
  C1. After N invocations of the work-simulation endpoint, the request counter's value
  for the key (endpoint "/", method "GET", status 200) is N: from the start of the
  process, the value is the number of requests that reached \<^verbatim>\<open>index\<close>, whatever
  other requests were served in between (first conjunct), and so it is N after N calls
  (second conjunct). In any state, one invocation adds 1 to the value of that key and
  leaves the value of every other key as it was (third conjunct), creates no key but
  that one (fourth conjunct), and changes the metrics by exactly one histogram
  observation and one counter increment (fifth conjunct).
\<close>

theorem index_counts_requests:
  "counter_value index_labels (REQUEST_COUNT (serve rs process_start)) = index_calls rs
   \<and> counter_value index_labels (REQUEST_COUNT (serve (map GET_index envs) process_start))
       = length envs
   \<and> counter_value k (REQUEST_COUNT (snd (index env reg)))
       = counter_value k (REQUEST_COUNT reg) + (if k = index_labels then 1 else 0)
   \<and> set (map fst (children (REQUEST_COUNT (snd (index env reg)))))
       = insert index_labels (set (map fst (children (REQUEST_COUNT reg))))
   \<and> snd (index env reg)
       = reg\<lparr>REQUEST_LATENCY := observe (time_after env - time_before env) (REQUEST_LATENCY reg),
             REQUEST_COUNT := inc index_labels (labels index_labels (REQUEST_COUNT reg))\<rparr>"
proof -
  have at_key: "counter_value index_labels (REQUEST_COUNT (serve qs process_start))
      = index_calls qs" for qs
    by (simp add: REQUEST_COUNT_reachable counter_after_def counter_value_def)
  have "index_calls (map GET_index envs) = length envs"
    by (induction envs) (simp_all add: index_calls_def)
  then have "counter_value index_labels (REQUEST_COUNT (serve (map GET_index envs) process_start))
      = length envs"
    by (simp only: at_key)
  moreover have "counter_value k (REQUEST_COUNT (snd (index env reg)))
       = counter_value k (REQUEST_COUNT reg) + (if k = index_labels then 1 else 0)"
    by (simp only: REQUEST_COUNT_index counter_value_inc_labels)
  moreover have "set (map fst (children (REQUEST_COUNT (snd (index env reg)))))
       = insert index_labels (set (map fst (children (REQUEST_COUNT reg))))"
    by (simp only: REQUEST_COUNT_index keys_inc keys_labels)
  moreover have "snd (index env reg)
       = reg\<lparr>REQUEST_LATENCY := observe (time_after env - time_before env) (REQUEST_LATENCY reg),
             REQUEST_COUNT := inc index_labels (labels index_labels (REQUEST_COUNT reg))\<rparr>"
    by (simp add: index_def Let_def)
  ultimately show ?thesis using at_key [of rs] by blast
qed

text \<open>
  C3. The latency histogram's configured bucket bounds are 5, 10, 25, 50, 100, 250, 500,
  1000, 2000 and 5000 milliseconds, followed by the bucket of all samples; they are the
  same in every reachable state. A request observed by the work-simulation endpoint in
  a reachable state adds one sample, its measured duration in seconds: the sample
  count grows by 1, the running sum by the duration, and the cumulative count of a
  bucket grows by 1 when the bucket's bound is at least the duration and stays as it
  was otherwise.
\<close>

theorem histogram_buckets_and_observation:
  "map (\<lambda>b. b * 1000) buckets = [5, 10, 25, 50, 100, 250, 500, 1000, 2000, 5000]
   \<and> upper_bounds (REQUEST_LATENCY (serve rs process_start)) = map Finite buckets @ [PlusInf]
   \<and> (let h = REQUEST_LATENCY (serve rs process_start);
          h' = REQUEST_LATENCY (snd (index env (serve rs process_start)));
          duration = time_after env - time_before env
      in upper_bounds h' = upper_bounds h
       \<and> sample_count h' = sample_count h + 1
       \<and> sample_sum h' = sample_sum h + duration
       \<and> cumulative_counts h'
           = map2 (\<lambda>b n. if le_bound duration b then n + 1 else n)
               (upper_bounds h) (cumulative_counts h))"
proof -
  let ?h = "REQUEST_LATENCY (serve rs process_start)"
  have ok: "histogram_ok ?h" by (rule histogram_ok_reachable)
  have "map (\<lambda>b. b * 1000) buckets = [5, 10, 25, 50, 100, 250, 500, 1000, 2000, 5000]"
    by (simp add: buckets_def)
  moreover have "upper_bounds ?h = map Finite buckets @ [PlusInf]"
    using ok by (simp add: histogram_ok_def)
  moreover have "upper_bounds (observe x ?h) = upper_bounds ?h" for x
    by (simp add: observe_def)
  moreover have "sample_sum (observe x ?h) = sample_sum ?h + x" for x
    by (simp add: observe_def)
  ultimately show ?thesis
    using sample_count_observe [OF ok] cumulative_counts_observe [OF ok]
    by (simp add: REQUEST_LATENCY_index Let_def)
qed

text \<open>
  C4, as stated: in every reachable state the request counter summed over all label
  combinations and the histogram's sample count equal the number of requests served
  since process start. This fails after one request to the liveness endpoint: one
  request has been served and both totals are 0.
\<close>

theorem served_requests_counterexample:
  "counter_total (REQUEST_COUNT (serve [GET_healthz] process_start)) \<noteq> length [GET_healthz]
   \<and> sample_count (REQUEST_LATENCY (serve [GET_healthz] process_start)) \<noteq> length [GET_healthz]"
  by (simp add: healthz_def process_start_def Counter_def Histogram_def counter_total_def
      sample_count_def buckets_def)

text \<open>
  C4, amended: in every reachable state the request counter summed over all label
  combinations and the histogram's sample count each equal the number of requests
  served by the work-simulation endpoint since process start (requests to the liveness
  and the metrics-exposition endpoints are not counted), and neither total is ever
  reset: serving further requests never makes it smaller.
\<close>

theorem totals_count_index_calls:
  "counter_total (REQUEST_COUNT (serve rs process_start)) = index_calls rs
   \<and> sample_count (REQUEST_LATENCY (serve rs process_start)) = index_calls rs
   \<and> counter_total (REQUEST_COUNT (serve rs process_start))
       \<le> counter_total (REQUEST_COUNT (serve (rs @ rs') process_start))
   \<and> sample_count (REQUEST_LATENCY (serve rs process_start))
       \<le> sample_count (REQUEST_LATENCY (serve (rs @ rs') process_start))"
proof -
  have total: "counter_total (REQUEST_COUNT (serve qs process_start)) = index_calls qs" for qs
    by (simp add: REQUEST_COUNT_reachable counter_after_def counter_total_def)
  have "index_calls rs \<le> index_calls (rs @ rs')"
    by (simp add: index_calls_def)
  then show ?thesis
    by (simp add: total sample_count_reachable)
qed

text \<open>
  C5. The liveness endpoint answers with the fixed text "ok" and status 200, and M calls
  of it leave the whole metrics state, hence the request counter's total and the
  histogram's sample count, as they were.
\<close>

theorem healthz_no_metrics:
  "body (fst (healthz reg)) = Text ''ok''
   \<and> status (fst (healthz reg)) = 200
   \<and> serve (replicate M GET_healthz) reg = reg
   \<and> counter_total (REQUEST_COUNT (serve (replicate M GET_healthz) reg))
       = counter_total (REQUEST_COUNT reg)
   \<and> sample_count (REQUEST_LATENCY (serve (replicate M GET_healthz) reg))
       = sample_count (REQUEST_LATENCY reg)"
proof -
  have "serve (replicate M GET_healthz) reg = reg"
    by (induction M) (simp_all add: healthz_def)
  then show ?thesis by (simp add: healthz_def)
qed

text \<open>
  C6. The metrics-exposition endpoint answers with the serialization of the metrics
  state it finds at the call, status 200 and the content type
  \<^verbatim>\<open>text/plain; version=0.0.4; charset=utf-8\<close>, and leaves the metrics state as it
  was.
\<close>

theorem metrics_snapshot:
  "body (fst (metrics builtin reg)) = Exposition (generate_latest builtin reg)
   \<and> status (fst (metrics builtin reg)) = 200
   \<and> headers (fst (metrics builtin reg))
       = [(''Content-Type'', ''text/plain; version=0.0.4; charset=utf-8'')]
   \<and> snd (metrics builtin reg) = reg"
  by (simp add: metrics_def CONTENT_TYPE_LATEST_def)

text \<open>
  C7. From a fresh registry, after one call of \<^verbatim>\<open>/\<close> and then one call of
  \<^verbatim>\<open>/metrics\<close>, the exposition contains a line of the request-count metric with
  the labels endpoint "/", method "GET", http_status "200" and the value 1.
\<close>

theorem index_then_metrics_line:
  "\<exists>lines.
     body (fst (route (GET_metrics builtin) (serve [GET_index env] process_start)))
       = Exposition lines
     \<and> \<lparr>sample_name = ''sample_app_request_total'',
         sample_labels = [(''endpoint'', Str ''/''), (''method'', Str ''GET''),
                          (''http_status'', Str ''200'')],
         sample_value = 1\<rparr> \<in> set lines"
  by (simp add: metrics_def generate_latest_def REQUEST_COUNT_index process_start_def
      Counter_def labels_def inc_def counter_samples_def index_labels_def)

text \<open>
  C9. The \<^verbatim>\<open>latency_seconds\<close> of the work-simulation endpoint's response is the
  value that the same invocation records into the latency histogram: the difference
  of the two clock readings is both the number in the response and the sample
  observed, by which the histogram's running sum grows.
\<close>

theorem index_reports_observed_latency:
  "(let latency = time_after env - time_before env
    in body (fst (index env reg))
         = JsonObject [(''ok'', JBool True), (''latency_seconds'', JNumber latency)]
     \<and> REQUEST_LATENCY (snd (index env reg)) = observe latency (REQUEST_LATENCY reg)
     \<and> sample_sum (REQUEST_LATENCY (snd (index env reg)))
         = sample_sum (REQUEST_LATENCY reg) + latency)"
  by (simp add: index_def Let_def jsonify_def observe_def)

text \<open>
  C10. In every reachable state the request counter holds at most one label
  combination, and no other than (endpoint "/", method "GET", http_status 200).
\<close>

theorem single_label_combination:
  "set (map fst (children (REQUEST_COUNT (serve rs process_start)))) \<subseteq> {index_labels}
   \<and> length (children (REQUEST_COUNT (serve rs process_start))) \<le> 1"
  by (simp add: REQUEST_COUNT_reachable counter_after_def)

end
